theory Spec2Isabelle
  imports Main
begin

section \<open>The subscription-and-broadcast server of \<^verbatim>\<open>src/src/server.ts\<close>\<close>

text \<open>
  The server keeps four module-level variables: the handle of the interval timer, the
  stop lists subscribed by each client, the socket of each client and the departures
  last fetched for each stop. Four handlers of \<^verbatim>\<open>Bun.serve\<close> and the asynchronous function
  \<^verbatim>\<open>fetchData\<close> read and write them. Each handler runs to completion; \<^verbatim>\<open>fetchData\<close>
  has one suspension point, the \<^verbatim>\<open>await\<close> of the upstream call, and is therefore modelled
  in two parts: what runs up to the \<^verbatim>\<open>await\<close>, and what runs when the awaited promise
  settles. Other handlers may run in between.

  What \<^verbatim>\<open>server.ts\<close> imports from other modules is a parameter of the model:
  \<^verbatim>\<open>getParsedDeparture\<close> (\<^verbatim>\<open>server.utils\<close>), the two schemas (\<^verbatim>\<open>schemas\<close>), and the
  settlement of \<^verbatim>\<open>fetchApiData\<close> (\<^verbatim>\<open>fetch-metro\<close>). \<^verbatim>\<open>JSON.parse\<close>, \<^verbatim>\<open>uuid\<close>,
  \<^verbatim>\<open>server.upgrade\<close> and the timer identifier returned by \<^verbatim>\<open>setInterval\<close> are inputs
  as well.
\<close>

subsection \<open>JavaScript \<^verbatim>\<open>Map\<close>\<close>

text \<open>
  A \<^verbatim>\<open>Map\<close> iterates in insertion order, and \<^verbatim>\<open>set\<close> on a key already present keeps the
  key's position. It is an association list with distinct keys; \<^verbatim>\<open>get\<close> is \<^const>\<open>map_of\<close>.
\<close>

type_synonym ('k, 'v) js_map = "('k \<times> 'v) list"

abbreviation Map_get :: "('k, 'v) js_map \<Rightarrow> 'k \<Rightarrow> 'v option" where
  "Map_get m k \<equiv> map_of m k"

definition Map_has :: "('k, 'v) js_map \<Rightarrow> 'k \<Rightarrow> bool" where
  "Map_has m k = (map_of m k \<noteq> None)"

fun Map_set :: "'k \<Rightarrow> 'v \<Rightarrow> ('k, 'v) js_map \<Rightarrow> ('k, 'v) js_map" where
  "Map_set k v [] = [(k, v)]"
| "Map_set k v ((k', v') # m) =
     (if k' = k then (k, v) # m else (k', v') # Map_set k v m)"

definition Map_delete :: "'k \<Rightarrow> ('k, 'v) js_map \<Rightarrow> ('k, 'v) js_map" where
  "Map_delete k m = filter (\<lambda>e. fst e \<noteq> k) m"

definition Map_keys :: "('k, 'v) js_map \<Rightarrow> 'k set" where
  "Map_keys m = fst ` set m"

subsection \<open>Data\<close>

type_synonym clientID = string
type_synonym stopID = string

text \<open>
  An element of \<^verbatim>\<open>res.departures\<close>. The server reads only \<^verbatim>\<open>departure.stop.id\<close>; the rest
  of the upstream record is \<open>raw_rest\<close>. The normalised \<^verbatim>\<open>Departure\<close> is the type
  variable \<open>'d\<close> throughout.
\<close>

record 'x raw_departure =
  stop_id :: stopID
  raw_rest :: 'x

text \<open>A \<^verbatim>\<open>ServerWebSocket<ClientData>\<close>: the server reads \<^verbatim>\<open>ws.data.clientID\<close> and calls
  \<^verbatim>\<open>ws.send\<close> and \<^verbatim>\<open>ws.close\<close>.\<close>

datatype ws = ServerWebSocket (data_clientID: clientID)

record 'd state =
  intervalId :: "nat option"
  subscribedStopIDsByClientID :: "(clientID, stopID list) js_map"
  wsByClientID :: "(clientID, ws) js_map"
  departuresByStopID :: "(stopID, 'd list) js_map"

definition initial_state :: "'d state" where
  "initial_state =
     \<lparr>intervalId = None, subscribedStopIDsByClientID = [], wsByClientID = [],
      departuresByStopID = []\<rparr>"

text \<open>
  What \<^verbatim>\<open>departuresByStopID.get(stopID)\<close> evaluates to, and what a member of a JSON object
  can be in the text sent to a client. \<^verbatim>\<open>JSON.stringify\<close> leaves out a property whose value
  is \<^verbatim>\<open>undefined\<close>; it writes \<^verbatim>\<open>null\<close> only for \<^verbatim>\<open>undefined\<close> inside an array. The text
  is represented by the list of its members; the order in which JavaScript enumerates
  integer-like property names first is not modelled, and no statement below depends on
  the order of members.
\<close>

datatype 'd js_value = Undefined | Array "'d list"

datatype 'd json = JNull | JArray "'d list"

type_synonym 'd payload = "(stopID \<times> 'd json) list"

datatype error =
    TypeError string
  | GatewayError string

text \<open>
  What a handler does besides changing the four variables, in order: the upstream call
  (with the \<^verbatim>\<open>clientID\<close> argument of the \<^verbatim>\<open>fetchData\<close> call that awaits it), a frame sent,
  a socket closed, the timer created or cleared, and the rejection of the promise
  returned by \<^verbatim>\<open>fetchData\<close>, which no caller handles.
\<close>

datatype 'd effect =
    FetchApiData "stopID list" "clientID option"
  | Send ws "'d payload"
  | Close ws nat string
  | SetInterval nat
  | ClearInterval nat
  | Reject error

text \<open>How the promise returned by \<^verbatim>\<open>fetchApiData\<close> settles.\<close>

datatype 'x api_result =
    Resolves "'x raw_departure list"
  | Rejects string

subsection \<open>\<^verbatim>\<open>fetchData\<close>\<close>

definition getAllSubscribedStopIDs :: "'d state \<Rightarrow> stopID list" where
  "getAllSubscribedStopIDs s = concat (map snd (subscribedStopIDsByClientID s))"

text \<open>
  The tests \<^verbatim>\<open>clientID ? \<dots>\<close>, \<^verbatim>\<open>!clientID\<close> and \<^verbatim>\<open>if (clientID)\<close>: the argument is
  \<^verbatim>\<open>undefined\<close> (the timer's call) or a string, and the empty string is falsy.
\<close>

fun truthy :: "clientID option \<Rightarrow> clientID option" where
  "truthy None = None"
| "truthy (Some c) = (if c = [] then None else Some c)"

text \<open>Lines 35 to 39. The non-null assertion of line 37 is erased at run time: on a client
  without an entry, \<^verbatim>\<open>.filter\<close> is read off \<^verbatim>\<open>undefined\<close>.\<close>

definition stopIDsToFetch :: "'d state \<Rightarrow> clientID option \<Rightarrow> error + stopID list" where
  "stopIDsToFetch s clientID =
     (case truthy clientID of
        Some c \<Rightarrow>
          (case Map_get (subscribedStopIDsByClientID s) c of
             None \<Rightarrow> Inl (TypeError ''subscribedStopIDsByClientID.get(clientID).filter'')
           | Some stopIDs \<Rightarrow>
               Inr (filter (\<lambda>stopID. \<not> Map_has (departuresByStopID s) stopID) stopIDs))
      | None \<Rightarrow> Inr (getAllSubscribedStopIDs s))"

text \<open>Lines 35 to 41, up to the \<^verbatim>\<open>await\<close>: the upstream call is made with whatever list
  was computed.\<close>

definition fetchData_call :: "'d state \<Rightarrow> clientID option \<Rightarrow> 'd effect list" where
  "fetchData_call s clientID =
     (case stopIDsToFetch s clientID of
        Inl e \<Rightarrow> [Reject e]
      | Inr stopIDs \<Rightarrow> [FetchApiData stopIDs clientID])"

text \<open>
  \<^verbatim>\<open>group\<close> of radash: a left-to-right \<^verbatim>\<open>reduce\<close> over an object literal that appends
  each item to the array stored under its key, creating the array at the key's first
  occurrence. The accumulator inherits from \<^verbatim>\<open>Object.prototype\<close>: under a key that names
  one of its properties, \<^verbatim>\<open>acc[groupId]\<close> is already a function (or, for \<^verbatim>\<open>__proto__\<close>,
  the prototype itself), no array is created, and appending to it throws a \<^verbatim>\<open>TypeError\<close>.
  \<^verbatim>\<open>Object.entries\<close> of the result is the list of pairs.
\<close>

definition Object_prototype_properties :: "string list" where
  "Object_prototype_properties =
     [''constructor'', ''__defineGetter__'', ''__defineSetter__'', ''hasOwnProperty'',
      ''__lookupGetter__'', ''__lookupSetter__'', ''isPrototypeOf'', ''propertyIsEnumerable'',
      ''toString'', ''valueOf'', ''__proto__'', ''toLocaleString'']"

definition group_step :: "('a \<Rightarrow> string) \<Rightarrow> (string, 'a list) js_map \<Rightarrow> 'a \<Rightarrow> (string, 'a list) js_map" where
  "group_step getGroupId acc item =
     (case Map_get acc (getGroupId item) of
        None \<Rightarrow> Map_set (getGroupId item) [item] acc
      | Some items \<Rightarrow> Map_set (getGroupId item) (items @ [item]) acc)"

fun group_reduce ::
  "('a \<Rightarrow> string) \<Rightarrow> (string, 'a list) js_map \<Rightarrow> 'a list \<Rightarrow> error + (string, 'a list) js_map" where
  "group_reduce getGroupId acc [] = Inr acc"
| "group_reduce getGroupId acc (item # array) =
     (if getGroupId item \<in> set Object_prototype_properties
      then Inl (TypeError ''group: acc[groupId] is not an array'')
      else group_reduce getGroupId (group_step getGroupId acc item) array)"

definition group_radash :: "'a list \<Rightarrow> ('a \<Rightarrow> string) \<Rightarrow> error + (string, 'a list) js_map" where
  "group_radash array getGroupId = group_reduce getGroupId [] array"

text \<open>Lines 51 to 62: the response is grouped, then there is one
  \<^verbatim>\<open>departuresByStopID.set\<close> for each group. When \<^verbatim>\<open>group\<close> throws, nothing has been
  written yet.\<close>

definition store_group ::
  "('x raw_departure \<Rightarrow> 'd) \<Rightarrow> (stopID, 'd list) js_map \<Rightarrow> stopID \<times> 'x raw_departure list
     \<Rightarrow> (stopID, 'd list) js_map" where
  "store_group getParsedDeparture cache entry =
     Map_set (fst entry) (map getParsedDeparture (snd entry)) cache"

definition store_departures ::
  "('x raw_departure \<Rightarrow> 'd) \<Rightarrow> 'x raw_departure list \<Rightarrow> 'd state \<Rightarrow> error + 'd state" where
  "store_departures getParsedDeparture departures s =
     (if departures \<noteq> [] then
        (case group_radash departures stop_id of
           Inl e \<Rightarrow> Inl e
         | Inr resDeparturesByStopID \<Rightarrow>
             Inr (s\<lparr>departuresByStopID :=
                      foldl (store_group getParsedDeparture) (departuresByStopID s)
                        resDeparturesByStopID\<rparr>))
      else Inr s)"

text \<open>The state that lines 51 to 62 leave behind, whether they ran to their end or
  threw.\<close>

definition update_departures ::
  "('x raw_departure \<Rightarrow> 'd) \<Rightarrow> 'x raw_departure list \<Rightarrow> 'd state \<Rightarrow> 'd state" where
  "update_departures getParsedDeparture departures s =
     (case store_departures getParsedDeparture departures s of
        Inl e \<Rightarrow> s
      | Inr s' \<Rightarrow> s')"

text \<open>Whether a response makes \<^verbatim>\<open>group\<close> throw.\<close>

definition names_prototype_property :: "'x raw_departure list \<Rightarrow> bool" where
  "names_prototype_property departures =
     list_ex (\<lambda>d. stop_id d \<in> set Object_prototype_properties) departures"

text \<open>\<^verbatim>\<open>Object.fromEntries\<close>: each pair defines a property, a later pair for the same name
  replacing the value.\<close>

definition Object_fromEntries :: "(string \<times> 'v) list \<Rightarrow> (string \<times> 'v) list" where
  "Object_fromEntries entries = foldl (\<lambda>obj e. Map_set (fst e) (snd e) obj) [] entries"

fun stringify_member :: "string \<times> 'd js_value \<Rightarrow> (string \<times> 'd json) option" where
  "stringify_member (k, Undefined) = None"
| "stringify_member (k, Array ds) = Some (k, JArray ds)"

definition JSON_stringify :: "(string \<times> 'd js_value) list \<Rightarrow> 'd payload" where
  "JSON_stringify obj = List.map_filter stringify_member obj"

definition cache_get :: "'d state \<Rightarrow> stopID \<Rightarrow> 'd js_value" where
  "cache_get s stopID =
     (case Map_get (departuresByStopID s) stopID of
        None \<Rightarrow> Undefined
      | Some ds \<Rightarrow> Array ds)"

text \<open>Lines 68 to 78.\<close>

definition getStringifiedDataForClientID :: "'d state \<Rightarrow> clientID \<Rightarrow> error + 'd payload" where
  "getStringifiedDataForClientID s clientID =
     (case Map_get (subscribedStopIDsByClientID s) clientID of
        None \<Rightarrow> Inl (TypeError ''subscribedStopIDsByClientID.get(clientID).map'')
      | Some stopIDsSubscribedByClient \<Rightarrow>
          Inr (JSON_stringify
                 (Object_fromEntries
                    (map (\<lambda>stopID. (stopID, cache_get s stopID)) stopIDsSubscribedByClient))))"

text \<open>Lines 94 to 96: \<^verbatim>\<open>forEach\<close> stops at the first callback that throws; the frames
  sent before stay sent.\<close>

fun send_to_all :: "'d state \<Rightarrow> (clientID, ws) js_map \<Rightarrow> 'd effect list" where
  "send_to_all s [] = []"
| "send_to_all s ((clientID, w) # rest) =
     (case getStringifiedDataForClientID s clientID of
        Inl e \<Rightarrow> [Reject e]
      | Inr text \<Rightarrow> Send w text # send_to_all s rest)"

text \<open>Lines 83 to 89. In \<^verbatim>\<open>ws.send(\<dots>)\<close> the callee \<^verbatim>\<open>ws.send\<close> is read before the
  argument is evaluated, so a missing socket throws first.\<close>

definition send_to_client :: "'d state \<Rightarrow> clientID \<Rightarrow> 'd effect list" where
  "send_to_client s clientID =
     (case Map_get (wsByClientID s) clientID of
        None \<Rightarrow> [Reject (TypeError ''wsByClientID.get(clientID).send'')]
      | Some w \<Rightarrow>
          (case getStringifiedDataForClientID s clientID of
             Inl e \<Rightarrow> [Reject e]
           | Inr text \<Rightarrow> [Send w text]))"

text \<open>Lines 41 to 97, from the settlement of the awaited promise on. The state returned
  is the state left behind, also when the function throws after the cache was written.\<close>

definition fetchData_resume ::
  "('x raw_departure \<Rightarrow> 'd) \<Rightarrow> 'd state \<Rightarrow> clientID option \<Rightarrow> 'x api_result
     \<Rightarrow> 'd state \<times> 'd effect list" where
  "fetchData_resume getParsedDeparture s clientID settled =
     (case settled of
        Rejects e \<Rightarrow> (s, [Reject (GatewayError e)])
      | Resolves departures \<Rightarrow>
          (case truthy clientID of
             None \<Rightarrow>
               if departures = [] then (s, [])
               else
                 (case store_departures getParsedDeparture departures s of
                    Inl e \<Rightarrow> (s, [Reject e])
                  | Inr s' \<Rightarrow> (s', send_to_all s' (wsByClientID s')))
           | Some c \<Rightarrow>
               (case store_departures getParsedDeparture departures s of
                  Inl e \<Rightarrow> (s, [Reject e])
                | Inr s' \<Rightarrow> (s', send_to_client s' c))))"

subsection \<open>The handlers of \<^verbatim>\<open>Bun.serve\<close>\<close>

datatype refusal =
    HeaderMissing
  | HeaderNotJSON string
  | HeaderInvalid string
  | UpgradeFailed

datatype http_result = ErrorResponse refusal | Upgraded ws

text \<open>
  Lines 100 to 123. \<open>header\<close> is \<^verbatim>\<open>req.headers.get(STOP_IDS_HEADER)\<close>, \<open>uuid\<close> the value
  \<^verbatim>\<open>uuid()\<close> returns and \<open>upgrade\<close> the value \<^verbatim>\<open>server.upgrade\<close> returns. A parser or schema
  returns \<open>Inl\<close> with its message on failure. The entry is written before the upgrade
  is attempted, and the path of a failed upgrade does not take it back.
\<close>

definition fetch_handler ::
  "(string \<Rightarrow> string + 'j) \<Rightarrow> ('j \<Rightarrow> string + stopID list) \<Rightarrow> 'd state
     \<Rightarrow> string option \<Rightarrow> clientID \<Rightarrow> bool \<Rightarrow> 'd state \<times> http_result" where
  "fetch_handler JSON_parse StopIDsSchema s header uuid upgrade =
     (case header of
        None \<Rightarrow> (s, ErrorResponse HeaderMissing)
      | Some stopIDsHeaderRaw \<Rightarrow>
          if stopIDsHeaderRaw = [] then (s, ErrorResponse HeaderMissing)
          else
            (case JSON_parse stopIDsHeaderRaw of
               Inl err \<Rightarrow> (s, ErrorResponse (HeaderNotJSON err))
             | Inr parsed \<Rightarrow>
                 (case StopIDsSchema parsed of
                    Inl msg \<Rightarrow> (s, ErrorResponse (HeaderInvalid msg))
                  | Inr data \<Rightarrow>
                      (s\<lparr>subscribedStopIDsByClientID :=
                           Map_set uuid data (subscribedStopIDsByClientID s)\<rparr>,
                       if upgrade then Upgraded (ServerWebSocket uuid)
                       else ErrorResponse UpgradeFailed))))"

text \<open>
  Lines 125 to 136. \<open>timer\<close> is the identifier the runtime gives to the interval if one is
  created. The call of \<^verbatim>\<open>fetchData\<close> is not awaited: the handler goes on whatever that
  call does later.
\<close>

definition open_handler :: "'d state \<Rightarrow> ws \<Rightarrow> nat \<Rightarrow> 'd state \<times> 'd effect list" where
  "open_handler s w timer =
     (let s1 = s\<lparr>wsByClientID := Map_set (data_clientID w) w (wsByClientID s)\<rparr>;
          called = fetchData_call s1 (Some (data_clientID w))
      in case intervalId s1 of
           Some running \<Rightarrow> (s1, called)
         | None \<Rightarrow> (s1\<lparr>intervalId := Some timer\<rparr>, called @ [SetInterval timer]))"

text \<open>Lines 137 to 158. A frame is a string or binary data.\<close>

datatype frame = Text string | Binary

definition message_handler ::
  "(string \<Rightarrow> string + 'j) \<Rightarrow> ('j \<Rightarrow> string + stopID list) \<Rightarrow> 'd state
     \<Rightarrow> ws \<Rightarrow> frame \<Rightarrow> 'd state \<times> 'd effect list" where
  "message_handler JSON_parse SubscribeSchema s w message =
     (case message of
        Binary \<Rightarrow> (s, [Close w 1011 ''Message has to be string''])
      | Text m \<Rightarrow>
          (case JSON_parse m of
             Inl err \<Rightarrow> (s, [Close w 1011 err])
           | Inr parsed \<Rightarrow>
               (case SubscribeSchema parsed of
                  Inl msg \<Rightarrow> (s, [Close w 1011 msg])
                | Inr subscribe \<Rightarrow>
                    (s\<lparr>subscribedStopIDsByClientID :=
                         Map_set (data_clientID w) subscribe (subscribedStopIDsByClientID s)\<rparr>,
                     []))))"

text \<open>Lines 159 to 169.\<close>

definition close_handler :: "'d state \<Rightarrow> ws \<Rightarrow> 'd state \<times> 'd effect list" where
  "close_handler s w =
     (let s1 = s\<lparr>wsByClientID := Map_delete (data_clientID w) (wsByClientID s),
                 subscribedStopIDsByClientID :=
                   Map_delete (data_clientID w) (subscribedStopIDsByClientID s)\<rparr>;
          numOfsubscribedClients = length (subscribedStopIDsByClientID s1)
      in case intervalId s1 of
           None \<Rightarrow> (s1, [])
         | Some running \<Rightarrow>
             if 0 < numOfsubscribedClients then (s1, [])
             else (s1\<lparr>intervalId := None\<rparr>, [ClearInterval running]))"

subsection \<open>The server as a transition system\<close>

text \<open>
  The runtime calls the handlers one at a time. Besides the four variables, the system
  state records what the runtime knows: the identifiers \<^verbatim>\<open>uuid\<close> has given out, the
  connections upgraded whose \<^verbatim>\<open>open\<close> handler has not run yet, the open connections, the
  calls of \<^verbatim>\<open>fetchData\<close> suspended at their \<^verbatim>\<open>await\<close> (each with its \<^verbatim>\<open>clientID\<close> argument
  and the list it passed upstream), the interval timers that exist, and every effect so
  far.
\<close>

record 'd system =
  globals :: "'d state"
  issued :: "clientID list"
  upgraded :: "clientID list"
  opened :: "clientID list"
  awaiting :: "(clientID option \<times> stopID list) list"
  timers :: "nat list"
  effects :: "'d effect list"

definition initial_system :: "'d system" where
  "initial_system =
     \<lparr>globals = initial_state, issued = [], upgraded = [], opened = [], awaiting = [],
      timers = [], effects = []\<rparr>"

fun absorb :: "'d system \<Rightarrow> 'd effect \<Rightarrow> 'd system" where
  "absorb sys (FetchApiData stopIDs clientID) =
     sys\<lparr>awaiting := awaiting sys @ [(clientID, stopIDs)],
         effects := effects sys @ [FetchApiData stopIDs clientID]\<rparr>"
| "absorb sys (SetInterval t) =
     sys\<lparr>timers := timers sys @ [t], effects := effects sys @ [SetInterval t]\<rparr>"
| "absorb sys (ClearInterval t) =
     sys\<lparr>timers := removeAll t (timers sys), effects := effects sys @ [ClearInterval t]\<rparr>"
| "absorb sys e = sys\<lparr>effects := effects sys @ [e]\<rparr>"

definition handled :: "'d system \<Rightarrow> 'd state \<times> 'd effect list \<Rightarrow> 'd system" where
  "handled sys r = foldl absorb (sys\<lparr>globals := fst r\<rparr>) (snd r)"

text \<open>
  The events, with what the runtime supplies to the handler:
  a request (its header, the value of \<^verbatim>\<open>uuid()\<close>, the value of \<^verbatim>\<open>server.upgrade\<close>);
  the \<^verbatim>\<open>open\<close> of an upgraded connection (with the identifier a new timer would get);
  a frame on an open connection; the \<^verbatim>\<open>close\<close> of an open connection; a tick of the
  interval; the settlement of a suspended upstream call.
\<close>

datatype 'x event =
    Request "string option" clientID bool
  | Open clientID nat
  | Message clientID frame
  | Closed clientID
  | Tick
  | Settle nat "'x api_result"

text \<open>The functions this server takes from the rest of the repository.\<close>

record ('j, 'x, 'd) externals =
  JSON_parse :: "string \<Rightarrow> string + 'j"
  StopIDsSchema :: "'j \<Rightarrow> string + stopID list"
  SubscribeSchema :: "'j \<Rightarrow> string + stopID list"
  getParsedDeparture :: "'x raw_departure \<Rightarrow> 'd"

text \<open>
  One event. The result is \<open>None\<close> when the runtime cannot produce the event in this
  state: \<^verbatim>\<open>uuid\<close> gives a new, non-empty identifier each time; \<^verbatim>\<open>open\<close> is called once for
  a connection whose upgrade succeeded; frames and \<^verbatim>\<open>close\<close> come on open connections,
  \<^verbatim>\<open>close\<close> once; a tick needs a timer; a new timer's identifier is not that of a timer
  that exists; only a suspended call can be resumed.
\<close>

definition request_event ::
  "('j, 'x, 'd) externals \<Rightarrow> 'd system \<Rightarrow> string option \<Rightarrow> clientID \<Rightarrow> bool \<Rightarrow> 'd system option" where
  "request_event E sys header uuid upgrade =
     (if uuid = [] \<or> uuid \<in> set (issued sys) then None
      else
        (case fetch_handler (JSON_parse E) (StopIDsSchema E) (globals sys) header uuid upgrade of
           (s, Upgraded w) \<Rightarrow>
             Some (sys\<lparr>globals := s, issued := issued sys @ [uuid],
                       upgraded := upgraded sys @ [data_clientID w]\<rparr>)
         | (s, ErrorResponse r) \<Rightarrow>
             Some (sys\<lparr>globals := s, issued := issued sys @ [uuid]\<rparr>)))"

definition open_event :: "'d system \<Rightarrow> clientID \<Rightarrow> nat \<Rightarrow> 'd system option" where
  "open_event sys c t =
     (if c \<in> set (upgraded sys) \<and> t \<notin> set (timers sys) then
        Some (handled (sys\<lparr>upgraded := removeAll c (upgraded sys), opened := opened sys @ [c]\<rparr>)
                (open_handler (globals sys) (ServerWebSocket c) t))
      else None)"

definition message_event ::
  "('j, 'x, 'd) externals \<Rightarrow> 'd system \<Rightarrow> clientID \<Rightarrow> frame \<Rightarrow> 'd system option" where
  "message_event E sys c m =
     (if c \<in> set (opened sys) then
        Some (handled sys
                (message_handler (JSON_parse E) (SubscribeSchema E) (globals sys)
                   (ServerWebSocket c) m))
      else None)"

definition closed_event :: "'d system \<Rightarrow> clientID \<Rightarrow> 'd system option" where
  "closed_event sys c =
     (if c \<in> set (opened sys) then
        Some (handled (sys\<lparr>opened := removeAll c (opened sys)\<rparr>)
                (close_handler (globals sys) (ServerWebSocket c)))
      else None)"

definition tick_event :: "'d system \<Rightarrow> 'd system option" where
  "tick_event sys =
     (if timers sys = [] then None
      else Some (handled sys (globals sys, fetchData_call (globals sys) None)))"

definition settle_event ::
  "('j, 'x, 'd) externals \<Rightarrow> 'd system \<Rightarrow> nat \<Rightarrow> 'x api_result \<Rightarrow> 'd system option" where
  "settle_event E sys i settled =
     (if i < length (awaiting sys) then
        Some (handled (sys\<lparr>awaiting := take i (awaiting sys) @ drop (Suc i) (awaiting sys)\<rparr>)
                (fetchData_resume (getParsedDeparture E) (globals sys)
                   (fst (awaiting sys ! i)) settled))
      else None)"

fun step :: "('j, 'x, 'd) externals \<Rightarrow> 'd system \<Rightarrow> 'x event \<Rightarrow> 'd system option" where
  "step E sys (Request header uuid upgrade) = request_event E sys header uuid upgrade"
| "step E sys (Open c t) = open_event sys c t"
| "step E sys (Message c m) = message_event E sys c m"
| "step E sys (Closed c) = closed_event sys c"
| "step E sys Tick = tick_event sys"
| "step E sys (Settle i settled) = settle_event E sys i settled"

fun run :: "('j, 'x, 'd) externals \<Rightarrow> 'd system \<Rightarrow> 'x event list \<Rightarrow> 'd system option" where
  "run E sys [] = Some sys"
| "run E sys (e # es) = (case step E sys e of None \<Rightarrow> None | Some sys' \<Rightarrow> run E sys' es)"

subsection \<open>Sample inputs\<close>

text \<open>
  Stand-ins for the external functions, used where a statement is evaluated on a
  concrete input: the parsed JSON value is the list of stop identifiers itself, written
  one character per stop; both schemas accept a non-empty list; a normalised departure
  is the stop identifier paired with the rest of the record.
\<close>

definition sample_externals :: "(stopID list, string, stopID \<times> string) externals" where
  "sample_externals =
     \<lparr>JSON_parse = (\<lambda>raw. if raw = ''{'' then Inl ''SyntaxError'' else Inr (map (\<lambda>ch. [ch]) raw)),
      StopIDsSchema = (\<lambda>j. if j = [] then Inl ''Array must contain at least 1 element(s)'' else Inr j),
      SubscribeSchema = (\<lambda>j. if j = [] then Inl ''Array must contain at least 1 element(s)'' else Inr j),
      getParsedDeparture = (\<lambda>d. (stop_id d, raw_rest d))\<rparr>"

definition sample_departure :: "stopID \<Rightarrow> string \<Rightarrow> string raw_departure" where
  "sample_departure stop headsign = \<lparr>stop_id = stop, raw_rest = headsign\<rparr>"

definition sample_state :: "(stopID \<times> string) state" where
  "sample_state =
     \<lparr>intervalId = Some 7,
      subscribedStopIDsByClientID = [(''c1'', [''A'', ''B''])],
      wsByClientID = [(''c1'', ServerWebSocket ''c1'')],
      departuresByStopID = [(''B'', [(''B'', ''Zlicin'')])]\<rparr>"

subsection \<open>Invariants of the transition system\<close>

text \<open>
  Every client with a stored socket has a stop list. To carry this through the events it
  is stated together with what the runtime guarantees about identifiers: a connection
  waiting for its \<^verbatim>\<open>open\<close> has a stop list, is not open yet, and its identifier was given
  out by \<^verbatim>\<open>uuid\<close>, as was that of every open connection.
\<close>

definition sockets_have_entries :: "'d state \<Rightarrow> bool" where
  "sockets_have_entries s =
     (Map_keys (wsByClientID s) \<subseteq> Map_keys (subscribedStopIDsByClientID s))"

definition lifecycle_inv :: "'d system \<Rightarrow> bool" where
  "lifecycle_inv sys =
     (sockets_have_entries (globals sys) \<and>
      set (upgraded sys) \<subseteq> Map_keys (subscribedStopIDsByClientID (globals sys)) \<and>
      set (upgraded sys) \<inter> set (opened sys) = {} \<and>
      set (upgraded sys) \<subseteq> set (issued sys) \<and>
      set (opened sys) \<subseteq> set (issued sys))"

section \<open>Properties\<close>

subsection \<open>Unfolding sets for evaluation\<close>

lemmas handler_defs =
  fetch_handler_def open_handler_def message_handler_def close_handler_def
  fetchData_call_def stopIDsToFetch_def getAllSubscribedStopIDs_def
  fetchData_resume_def store_departures_def update_departures_def group_radash_def
  Object_prototype_properties_def names_prototype_property_def group_step_def store_group_def
  send_to_client_def getStringifiedDataForClientID_def Object_fromEntries_def
  JSON_stringify_def List.map_filter_simps cache_get_def Map_has_def Map_delete_def

lemmas system_defs =
  request_event_def open_event_def message_event_def closed_event_def tick_event_def
  settle_event_def handled_def initial_system_def initial_state_def

lemmas sample_defs = sample_externals_def sample_departure_def sample_state_def

subsection \<open>\<^verbatim>\<open>Map\<close> operations\<close>

lemma map_of_Map_set: "map_of (Map_set k v m) = (map_of m)(k \<mapsto> v)"
  by (induction m) (auto simp: fun_eq_iff)

lemma Map_get_Map_set: "Map_get (Map_set k v m) k' = (if k' = k then Some v else Map_get m k')"
  by (simp add: map_of_Map_set)

lemma Map_get_Map_delete: "Map_get (Map_delete k m) k' = (if k' = k then None else Map_get m k')"
  by (induction m) (auto simp: Map_delete_def)

lemma Map_keys_dom: "Map_keys m = dom (map_of m)"
  by (simp add: Map_keys_def dom_map_of_conv_image_fst)

lemma Map_keys_Map_set: "Map_keys (Map_set k v m) = insert k (Map_keys m)"
  by (simp add: Map_keys_dom map_of_Map_set)

lemma Map_keys_Map_delete: "Map_keys (Map_delete k m) = Map_keys m - {k}"
  by (auto simp: Map_keys_dom Map_get_Map_delete split: if_splits)

lemma fst_set_Map_set: "fst ` set (Map_set k v m) = insert k (fst ` set m)"
  using Map_keys_Map_set [of k v m] by (simp add: Map_keys_def)

lemma distinct_Map_set: "distinct (map fst m) \<Longrightarrow> distinct (map fst (Map_set k v m))"
  by (induction m) (auto simp: fst_set_Map_set)

lemma map_of_rev_distinct: "distinct (map fst m) \<Longrightarrow> map_of (rev m) k = map_of m k"
proof (induction m)
  case Nil
  then show ?case by simp
next
  case (Cons e m)
  show ?case
  proof (cases "map_of (e # m) k")
    case None
    then have "k \<notin> fst ` set (rev (e # m))"
      by (simp add: map_of_eq_None_iff del: map_of.simps)
    then show ?thesis
      using None by (simp only: map_of_eq_None_iff [symmetric])
  next
    case (Some v)
    then have "(k, v) \<in> set (rev (e # m))"
      using map_of_SomeD [of "e # m" k v] by simp
    moreover have "distinct (map fst (rev (e # m)))"
      using Cons.prems by (simp only: rev_map [symmetric] distinct_rev)
    ultimately show ?thesis
      using Some by (simp only: map_of_is_SomeI)
  qed
qed

subsection \<open>Grouping and the cache update\<close>

lemma group_reduce_eq:
  "group_reduce f acc xs =
     (if list_ex (\<lambda>x. f x \<in> set Object_prototype_properties) xs
      then Inl (TypeError ''group: acc[groupId] is not an array'')
      else Inr (foldl (group_step f) acc xs))"
  by (induction xs arbitrary: acc) simp_all

lemma group_radash_eq:
  "group_radash ds stop_id =
     (if names_prototype_property ds
      then Inl (TypeError ''group: acc[groupId] is not an array'')
      else Inr (foldl (group_step stop_id) [] ds))"
  by (simp add: group_radash_def group_reduce_eq names_prototype_property_def)

lemma Map_get_grouped:
  "Map_get (foldl (group_step f) [] xs) k =
     (if k \<in> f ` set xs then Some (filter (\<lambda>x. f x = k) xs) else None)"
proof (induction xs rule: rev_induct)
  case Nil
  then show ?case by simp
next
  case (snoc x xs)
  then show ?case
    by (auto simp: group_step_def map_of_Map_set filter_empty_conv image_iff
        split: option.splits)
qed

lemma distinct_grouped: "distinct (map fst (foldl (group_step f) [] xs))"
proof (induction xs rule: rev_induct)
  case Nil
  then show ?case by simp
next
  case (snoc x xs)
  then show ?case
    by (simp add: group_step_def distinct_Map_set split: option.splits)
qed

lemma Map_get_foldl_store_group:
  "Map_get (foldl (store_group g) cache es) k =
     (case map_of (rev es) k of None \<Rightarrow> Map_get cache k | Some ds \<Rightarrow> Some (map g ds))"
proof (induction es arbitrary: cache)
  case Nil
  then show ?case by simp
next
  case (Cons e es)
  then show ?case
    by (cases e) (simp add: store_group_def map_of_Map_set map_add_def split: option.splits)
qed

lemma update_departures_throws:
  "names_prototype_property ds \<Longrightarrow> update_departures g ds s = s"
  by (simp add: update_departures_def store_departures_def group_radash_eq)

lemma store_departures_eq:
  "store_departures g ds s =
     (if names_prototype_property ds
      then Inl (TypeError ''group: acc[groupId] is not an array'')
      else Inr (update_departures g ds s))"
  by (auto simp: update_departures_def store_departures_def group_radash_eq
      names_prototype_property_def)

lemma Map_get_update_departures:
  "Map_get (departuresByStopID (update_departures g ds s)) k =
     (if k \<in> stop_id ` set ds \<and> \<not> names_prototype_property ds
      then Some (map g (filter (\<lambda>d. stop_id d = k) ds))
      else Map_get (departuresByStopID s) k)"
  by (simp add: update_departures_def store_departures_def group_radash_eq
      Map_get_foldl_store_group map_of_rev_distinct distinct_grouped Map_get_grouped)

lemma update_departures_other [simp]:
  "subscribedStopIDsByClientID (update_departures g ds s) = subscribedStopIDsByClientID s"
  "wsByClientID (update_departures g ds s) = wsByClientID s"
  "intervalId (update_departures g ds s) = intervalId s"
  by (simp_all add: update_departures_def store_departures_def split: sum.splits)

lemma fst_fetchData_resume:
  "fst (fetchData_resume g s cid (Resolves ds)) = update_departures g ds s"
  by (auto simp: fetchData_resume_def update_departures_def store_departures_def
      split: option.splits sum.splits)

subsection \<open>The text sent to a client\<close>

lemma Map_get_foldl_Map_set:
  "Map_get (foldl (\<lambda>obj e. Map_set (fst e) (snd e) obj) acc es) k =
     (case map_of (rev es) k of None \<Rightarrow> Map_get acc k | Some v \<Rightarrow> Some v)"
proof (induction es arbitrary: acc)
  case Nil
  then show ?case by simp
next
  case (Cons e es)
  then show ?case
    by (cases e) (simp add: map_of_Map_set map_add_def split: option.splits)
qed

lemma distinct_foldl_Map_set:
  "distinct (map fst acc) \<Longrightarrow> distinct (map fst (foldl (\<lambda>obj e. Map_set (fst e) (snd e) obj) acc es))"
  by (induction es arbitrary: acc) (simp_all add: distinct_Map_set)

lemma Map_get_Object_fromEntries:
  "Map_get (Object_fromEntries (map (\<lambda>k. (k, g k)) ids)) k =
     (if k \<in> set ids then Some (g k) else None)"
  by (simp add: Object_fromEntries_def Map_get_foldl_Map_set rev_map map_of_map_restrict restrict_map_def)

lemma distinct_Object_fromEntries: "distinct (map fst (Object_fromEntries es))"
  by (simp add: Object_fromEntries_def distinct_foldl_Map_set)

lemma JSON_stringify_Cons:
  "JSON_stringify (e # obj) =
     (case stringify_member e of None \<Rightarrow> JSON_stringify obj | Some m \<Rightarrow> m # JSON_stringify obj)"
  by (cases "stringify_member e") (simp_all add: JSON_stringify_def List.map_filter_simps)

lemma JSON_stringify_Nil: "JSON_stringify [] = []"
  by (simp add: JSON_stringify_def List.map_filter_simps)

lemma keys_JSON_stringify: "fst ` set (JSON_stringify obj) \<subseteq> fst ` set obj"
proof (induction obj)
  case Nil
  then show ?case by (simp add: JSON_stringify_Nil)
next
  case (Cons e obj)
  obtain k v where e: "e = (k, v)" by (cases e)
  show ?case using Cons by (cases v) (auto simp: e JSON_stringify_Cons)
qed

lemma distinct_JSON_stringify:
  "distinct (map fst obj) \<Longrightarrow> distinct (map fst (JSON_stringify obj))"
proof (induction obj)
  case Nil
  then show ?case by (simp add: JSON_stringify_Nil)
next
  case (Cons e obj)
  obtain k v where e: "e = (k, v)" by (cases e)
  show ?case using Cons keys_JSON_stringify [of obj]
    by (cases v) (auto simp: e JSON_stringify_Cons)
qed

lemma Map_get_JSON_stringify:
  "distinct (map fst obj) \<Longrightarrow>
   Map_get (JSON_stringify obj) k =
     (case Map_get obj k of None \<Rightarrow> None | Some Undefined \<Rightarrow> None | Some (Array ds) \<Rightarrow> Some (JArray ds))"
proof (induction obj)
  case Nil
  then show ?case by (simp add: JSON_stringify_Nil)
next
  case (Cons e obj)
  obtain k' v where e: "e = (k', v)" by (cases e)
  have absent: "k' \<notin> fst ` set (JSON_stringify obj)"
    using Cons.prems keys_JSON_stringify [of obj] by (auto simp: e)
  then have none: "Map_get (JSON_stringify obj) k' = None"
    by (simp add: map_of_eq_None_iff)
  show ?case using Cons none
    by (cases v) (auto simp: e JSON_stringify_Cons)
qed

lemma getStringifiedDataForClientID_Some:
  assumes "Map_get (subscribedStopIDsByClientID s) c = Some ids"
  shows "\<exists>p. getStringifiedDataForClientID s c = Inr p \<and> distinct (map fst p) \<and>
           (\<forall>k. Map_get p k =
              (if k \<in> set ids then map_option JArray (Map_get (departuresByStopID s) k)
               else None))"
proof -
  let ?obj = "Object_fromEntries (map (\<lambda>stopID. (stopID, cache_get s stopID)) ids)"
  have p: "getStringifiedDataForClientID s c = Inr (JSON_stringify ?obj)"
    using assms by (simp add: getStringifiedDataForClientID_def)
  have d: "distinct (map fst (JSON_stringify ?obj))"
    by (simp add: distinct_JSON_stringify distinct_Object_fromEntries)
  have v: "Map_get (JSON_stringify ?obj) k =
             (if k \<in> set ids then map_option JArray (Map_get (departuresByStopID s) k) else None)"
    for k
    by (simp add: Map_get_JSON_stringify distinct_Object_fromEntries Map_get_Object_fromEntries
        cache_get_def split: option.splits)
  show ?thesis using p d v by simp
qed

lemma getStringifiedDataForClientID_cong:
  assumes "subscribedStopIDsByClientID s' = subscribedStopIDsByClientID s"
    and "\<And>ids k. Map_get (subscribedStopIDsByClientID s) c = Some ids \<Longrightarrow> k \<in> set ids \<Longrightarrow>
           Map_get (departuresByStopID s') k = Map_get (departuresByStopID s) k"
  shows "getStringifiedDataForClientID s' c = getStringifiedDataForClientID s c"
proof (cases "Map_get (subscribedStopIDsByClientID s) c")
  case None
  then show ?thesis using assms(1) by (simp add: getStringifiedDataForClientID_def)
next
  case (Some ids)
  have eq: "map (\<lambda>stopID. (stopID, cache_get s' stopID)) ids =
        map (\<lambda>stopID. (stopID, cache_get s stopID)) ids"
    using assms(2) [OF Some] by (simp add: cache_get_def)
  show ?thesis by (simp add: getStringifiedDataForClientID_def Some assms(1) eq)
qed

lemma Send_in_send_to_all:
  "Send w p \<in> set (send_to_all s m) \<Longrightarrow>
     \<exists>c. (c, w) \<in> set m \<and> getStringifiedDataForClientID s c = Inr p"
proof (induction m)
  case Nil
  then show ?case by simp
next
  case (Cons e m)
  obtain c' w' where e: "e = (c', w')" by (cases e)
  show ?case
  proof (cases "getStringifiedDataForClientID s c'")
    case (Inl err)
    then show ?thesis using Cons.prems by (simp add: e)
  next
    case (Inr payload)
    then show ?thesis using Cons by (auto simp: e)
  qed
qed

lemma Send_in_send_to_client:
  "Send w p \<in> set (send_to_client s c) \<Longrightarrow>
     (c, w) \<in> set (wsByClientID s) \<and> getStringifiedDataForClientID s c = Inr p"
  by (auto simp: send_to_client_def map_of_SomeD split: option.splits sum.splits)

lemma Send_in_fetchData_resume:
  assumes "Send w p \<in> set (snd (fetchData_resume g s cid r))"
  shows "\<exists>c. (c, w) \<in> set (wsByClientID s) \<and>
           getStringifiedDataForClientID (fst (fetchData_resume g s cid r)) c = Inr p"
proof (cases r)
  case (Rejects e)
  then show ?thesis using assms by (simp add: fetchData_resume_def)
next
  case (Resolves ds)
  show ?thesis
  proof (cases "truthy cid")
    case None
    then show ?thesis
      using assms Resolves Send_in_send_to_all [of w p "update_departures g ds s" "wsByClientID s"]
      by (simp add: fetchData_resume_def store_departures_eq split: if_splits)
  next
    case (Some c)
    then show ?thesis
      using assms Resolves Send_in_send_to_client [of w p "update_departures g ds s" c]
      by (auto simp: fetchData_resume_def store_departures_eq split: if_splits)
  qed
qed

lemma fetchData_resume_registry [simp]:
  "subscribedStopIDsByClientID (fst (fetchData_resume g s cid r)) = subscribedStopIDsByClientID s"
  "wsByClientID (fst (fetchData_resume g s cid r)) = wsByClientID s"
  "intervalId (fst (fetchData_resume g s cid r)) = intervalId s"
  by (simp_all add: fetchData_resume_def store_departures_eq split: api_result.splits option.splits)

subsection \<open>The events keep the invariant\<close>

lemma absorb_fields [simp]:
  "globals (absorb sys e) = globals sys"
  "issued (absorb sys e) = issued sys"
  "upgraded (absorb sys e) = upgraded sys"
  "opened (absorb sys e) = opened sys"
  by (cases e; simp)+

lemma foldl_absorb_fields [simp]:
  "globals (foldl absorb sys es) = globals sys"
  "issued (foldl absorb sys es) = issued sys"
  "upgraded (foldl absorb sys es) = upgraded sys"
  "opened (foldl absorb sys es) = opened sys"
  by (induction es arbitrary: sys; simp)+

lemma handled_fields [simp]:
  "globals (handled sys r) = fst r"
  "issued (handled sys r) = issued sys"
  "upgraded (handled sys r) = upgraded sys"
  "opened (handled sys r) = opened sys"
  by (simp_all add: handled_def)

lemma fetch_handler_registry:
  "subscribedStopIDsByClientID (fst (fetch_handler p v s h u ok)) = subscribedStopIDsByClientID s \<or>
   (\<exists>ids. subscribedStopIDsByClientID (fst (fetch_handler p v s h u ok)) =
            Map_set u ids (subscribedStopIDsByClientID s))"
  by (auto simp: fetch_handler_def split: option.splits sum.splits)

lemma fetch_handler_other [simp]:
  "wsByClientID (fst (fetch_handler p v s h u ok)) = wsByClientID s"
  "intervalId (fst (fetch_handler p v s h u ok)) = intervalId s"
  "departuresByStopID (fst (fetch_handler p v s h u ok)) = departuresByStopID s"
  by (simp_all add: fetch_handler_def split: option.splits sum.splits)

lemma fetch_handler_Upgraded:
  "fetch_handler p v s h u ok = (s', Upgraded w) \<Longrightarrow>
     w = ServerWebSocket u \<and> u \<in> Map_keys (subscribedStopIDsByClientID s')"
  by (auto simp: fetch_handler_def Map_keys_Map_set split: option.splits sum.splits if_splits)

lemma request_event_inv:
  assumes "lifecycle_inv sys" and "request_event E sys h u ok = Some sys'"
  shows "lifecycle_inv sys'"
proof -
  obtain s' res where fh:
    "fetch_handler (JSON_parse E) (StopIDsSchema E) (globals sys) h u ok = (s', res)"
    by (cases "fetch_handler (JSON_parse E) (StopIDsSchema E) (globals sys) h u ok")
  have fresh: "u \<notin> set (issued sys)"
    using assms(2) by (simp add: request_event_def split: if_splits)
  have ws: "wsByClientID s' = wsByClientID (globals sys)"
    using fetch_handler_other(1) [of "JSON_parse E" "StopIDsSchema E" "globals sys" h u ok]
    by (simp add: fh)
  have keys: "Map_keys (subscribedStopIDsByClientID (globals sys)) \<subseteq>
              Map_keys (subscribedStopIDsByClientID s')"
    using fetch_handler_registry [of "JSON_parse E" "StopIDsSchema E" "globals sys" h u ok]
    by (auto simp: fh Map_keys_Map_set)
  show ?thesis
  proof (cases res)
    case (ErrorResponse r)
    then have "sys' = sys\<lparr>globals := s', issued := issued sys @ [u]\<rparr>"
      using assms(2) fh by (simp add: request_event_def split: if_splits)
    then show ?thesis
      using assms(1) ws keys by (auto simp: lifecycle_inv_def sockets_have_entries_def)
  next
    case (Upgraded w)
    then have sys': "sys' = sys\<lparr>globals := s', issued := issued sys @ [u],
                               upgraded := upgraded sys @ [data_clientID w]\<rparr>"
      using assms(2) fh by (simp add: request_event_def split: if_splits)
    have w: "data_clientID w = u" "u \<in> Map_keys (subscribedStopIDsByClientID s')"
      using fetch_handler_Upgraded [of "JSON_parse E" "StopIDsSchema E" "globals sys" h u ok s' w]
        fh Upgraded by simp_all
    show ?thesis
      using assms(1) ws keys fresh w
      by (auto simp: sys' lifecycle_inv_def sockets_have_entries_def)
  qed
qed

lemma open_handler_globals:
  "wsByClientID (fst (open_handler s w t)) = Map_set (data_clientID w) w (wsByClientID s)"
  "subscribedStopIDsByClientID (fst (open_handler s w t)) = subscribedStopIDsByClientID s"
  "departuresByStopID (fst (open_handler s w t)) = departuresByStopID s"
  by (simp_all add: open_handler_def Let_def split: option.splits)

lemma open_event_inv:
  assumes "lifecycle_inv sys" and "open_event sys c t = Some sys'"
  shows "lifecycle_inv sys'"
proof -
  have c: "c \<in> set (upgraded sys)"
    using assms(2) by (simp add: open_event_def split: if_splits)
  have sys': "sys' = handled (sys\<lparr>upgraded := removeAll c (upgraded sys), opened := opened sys @ [c]\<rparr>)
                (open_handler (globals sys) (ServerWebSocket c) t)"
    using assms(2) by (simp add: open_event_def split: if_splits)
  show ?thesis
    using assms(1) c
    by (auto simp: sys' lifecycle_inv_def sockets_have_entries_def open_handler_globals
        Map_keys_Map_set)
qed

lemma message_handler_globals:
  "wsByClientID (fst (message_handler p v s w m)) = wsByClientID s"
  "Map_keys (subscribedStopIDsByClientID s) \<subseteq>
     Map_keys (subscribedStopIDsByClientID (fst (message_handler p v s w m)))"
  by (auto simp: message_handler_def Map_keys_Map_set split: frame.splits sum.splits)

lemma message_event_inv:
  assumes "lifecycle_inv sys" and "message_event E sys c m = Some sys'"
  shows "lifecycle_inv sys'"
proof -
  have sys': "sys' = handled sys
                (message_handler (JSON_parse E) (SubscribeSchema E) (globals sys)
                   (ServerWebSocket c) m)"
    using assms(2) by (simp add: message_event_def split: if_splits)
  show ?thesis
    using assms(1)
      message_handler_globals(2) [of "globals sys" "JSON_parse E" "SubscribeSchema E"
         "ServerWebSocket c" m]
    by (auto simp: sys' lifecycle_inv_def sockets_have_entries_def message_handler_globals(1))
qed

lemma close_handler_globals:
  "wsByClientID (fst (close_handler s w)) = Map_delete (data_clientID w) (wsByClientID s)"
  "subscribedStopIDsByClientID (fst (close_handler s w)) =
     Map_delete (data_clientID w) (subscribedStopIDsByClientID s)"
  "departuresByStopID (fst (close_handler s w)) = departuresByStopID s"
  by (simp_all add: close_handler_def Let_def split: option.splits)

lemma closed_event_inv:
  assumes "lifecycle_inv sys" and "closed_event sys c = Some sys'"
  shows "lifecycle_inv sys'"
proof -
  have c: "c \<in> set (opened sys)"
    using assms(2) by (simp add: closed_event_def split: if_splits)
  have sys': "sys' = handled (sys\<lparr>opened := removeAll c (opened sys)\<rparr>)
                (close_handler (globals sys) (ServerWebSocket c))"
    using assms(2) by (simp add: closed_event_def split: if_splits)
  show ?thesis
    using assms(1) c
    by (auto simp: sys' lifecycle_inv_def sockets_have_entries_def close_handler_globals
        Map_keys_Map_delete)
qed

lemma tick_event_inv:
  assumes "lifecycle_inv sys" and "tick_event sys = Some sys'"
  shows "lifecycle_inv sys'"
proof -
  have sys': "sys' = handled sys (globals sys, fetchData_call (globals sys) None)"
    using assms(2) by (simp add: tick_event_def split: if_splits)
  show ?thesis
    using assms(1) by (simp add: sys' lifecycle_inv_def)
qed

lemma settle_event_inv:
  assumes "lifecycle_inv sys" and "settle_event E sys i r = Some sys'"
  shows "lifecycle_inv sys'"
proof -
  have sys': "sys' = handled (sys\<lparr>awaiting := take i (awaiting sys) @ drop (Suc i) (awaiting sys)\<rparr>)
                (fetchData_resume (getParsedDeparture E) (globals sys)
                   (fst (awaiting sys ! i)) r)"
    using assms(2) by (simp add: settle_event_def split: if_splits)
  show ?thesis
    using assms(1) by (simp add: sys' lifecycle_inv_def sockets_have_entries_def)
qed

lemma step_inv:
  assumes "lifecycle_inv sys" and "step E sys e = Some sys'"
  shows "lifecycle_inv sys'"
  using assms
  by (cases e)
    (auto intro: request_event_inv open_event_inv message_event_inv closed_event_inv
      tick_event_inv settle_event_inv)

lemma run_inv:
  "lifecycle_inv sys \<Longrightarrow> run E sys es = Some sys' \<Longrightarrow> lifecycle_inv sys'"
proof (induction es arbitrary: sys)
  case Nil
  then show ?case by simp
next
  case (Cons e es)
  then show ?case by (auto split: option.splits dest: step_inv)
qed

lemma lifecycle_inv_initial: "lifecycle_inv initial_system"
  by (simp add: lifecycle_inv_def sockets_have_entries_def initial_system_def initial_state_def
      Map_keys_def)

section \<open>The claims\<close>

subsection \<open>C1: keys of the text sent\<close>

text \<open>
  C1, as the code has it. Every frame a refresh sends (targeted or periodic) goes to the
  socket of a client with a stop list, and the object it carries has exactly the keys
  that are in that list and in the cache at that moment, each with the cached array of
  departures. A subscribed stop that is not in the cache has no key: its value is
  \<^verbatim>\<open>undefined\<close>, which \<^verbatim>\<open>JSON.stringify\<close> leaves out, and \<^verbatim>\<open>null\<close> is never written.
\<close>

theorem payload_has_cached_subscribed_stops:
  assumes "Send w p \<in> set (snd (fetchData_resume g s cid r))"
  shows "\<exists>c ids. (c, w) \<in> set (wsByClientID s) \<and>
           Map_get (subscribedStopIDsByClientID s) c = Some ids \<and>
           Map_keys p = set ids \<inter> Map_keys (departuresByStopID (fst (fetchData_resume g s cid r))) \<and>
           (\<forall>k. Map_get p k =
              (if k \<in> set ids
               then map_option JArray (Map_get (departuresByStopID (fst (fetchData_resume g s cid r))) k)
               else None))"
proof -
  let ?s' = "fst (fetchData_resume g s cid r)"
  obtain c where c: "(c, w) \<in> set (wsByClientID s)"
    and p: "getStringifiedDataForClientID ?s' c = Inr p"
    using Send_in_fetchData_resume [OF assms] by blast
  obtain ids where ids: "Map_get (subscribedStopIDsByClientID s) c = Some ids"
    using p by (cases "Map_get (subscribedStopIDsByClientID s) c")
      (simp_all add: getStringifiedDataForClientID_def)
  then have "Map_get (subscribedStopIDsByClientID ?s') c = Some ids" by simp
  from getStringifiedDataForClientID_Some [OF this] p
  have v: "\<forall>k. Map_get p k =
              (if k \<in> set ids then map_option JArray (Map_get (departuresByStopID ?s') k) else None)"
    by simp
  have "Map_keys p = set ids \<inter> Map_keys (departuresByStopID ?s')"
    unfolding Map_keys_dom using v by (auto simp: dom_def split: if_splits)
  then show ?thesis using c ids v by blast
qed

theorem payload_has_cached_subscribed_stops_witness:
  "Send (ServerWebSocket ''c1'') [(''B'', JArray [(''B'', ''Zlicin'')])]
     \<in> set (snd (fetchData_resume (getParsedDeparture sample_externals) sample_state
                    (Some ''c1'') (Resolves []))) \<and>
   (\<exists>c ids. (c, ServerWebSocket ''c1'') \<in> set (wsByClientID sample_state) \<and>
      Map_get (subscribedStopIDsByClientID sample_state) c = Some ids \<and>
      Map_keys [(''B'', JArray [(''B'', ''Zlicin'')])] =
        set ids \<inter>
        Map_keys (departuresByStopID
          (fst (fetchData_resume (getParsedDeparture sample_externals) sample_state
                  (Some ''c1'') (Resolves [])))) \<and>
      (\<forall>k. Map_get [(''B'', JArray [(''B'', ''Zlicin'')])] k =
         (if k \<in> set ids
          then map_option JArray
                 (Map_get (departuresByStopID
                    (fst (fetchData_resume (getParsedDeparture sample_externals) sample_state
                            (Some ''c1'') (Resolves [])))) k)
          else None)))"
proof -
  have sent: "Send (ServerWebSocket ''c1'') [(''B'', JArray [(''B'', ''Zlicin'')])]
     \<in> set (snd (fetchData_resume (getParsedDeparture sample_externals) sample_state
                    (Some ''c1'') (Resolves [])))"
    by (simp add: handler_defs sample_defs)
  from sent payload_has_cached_subscribed_stops [OF sent] show ?thesis
    by (rule conjI)
qed

text \<open>
  The claim as written fails: a client that subscribes to \<open>A\<close> and whose targeted
  refresh brings no departures is sent the empty object, without a key for \<open>A\<close>.
\<close>

theorem never_fetched_stop_is_omitted:
  "run sample_externals initial_system
     [Request (Some ''A'') ''c1'' True, Open ''c1'' 7, Settle 0 (Resolves [])] =
   Some \<lparr>globals =
           \<lparr>intervalId = Some 7,
            subscribedStopIDsByClientID = [(''c1'', [''A''])],
            wsByClientID = [(''c1'', ServerWebSocket ''c1'')],
            departuresByStopID = []\<rparr>,
         issued = [''c1''], upgraded = [], opened = [''c1''], awaiting = [], timers = [7],
         effects =
           [FetchApiData [''A''] (Some ''c1''), SetInterval 7,
            Send (ServerWebSocket ''c1'') []]\<rparr>"
  by (simp add: handler_defs system_defs sample_defs)

subsection \<open>C2: the upstream call on an empty list\<close>

text \<open>
  C2, as the code has it. Every call of \<^verbatim>\<open>fetchData\<close> whose list can be computed calls
  \<^verbatim>\<open>fetchApiData\<close> once with that list, whatever its length: the periodic call with all
  subscribed stops, the targeted call with the client's stops that are not cached. There
  is no test before the call. On a periodic call whose response has no departures the
  function returns at once: the state is unchanged and nothing is sent.
\<close>

theorem refresh_always_calls_gateway:
  "fetchData_call s None = [FetchApiData (getAllSubscribedStopIDs s) None] \<and>
   (\<forall>c ids. c \<noteq> [] \<and> Map_get (subscribedStopIDsByClientID s) c = Some ids \<longrightarrow>
      fetchData_call s (Some c) =
        [FetchApiData (filter (\<lambda>stopID. \<not> Map_has (departuresByStopID s) stopID) ids) (Some c)]) \<and>
   fetchData_resume g s None (Resolves []) = (s, [])"
  by (simp add: fetchData_call_def stopIDsToFetch_def fetchData_resume_def)

theorem refresh_always_calls_gateway_witness:
  "''c1'' \<noteq> [] \<and>
   Map_get (subscribedStopIDsByClientID sample_state) ''c1'' = Some [''A'', ''B''] \<and>
   fetchData_call sample_state (Some ''c1'') = [FetchApiData [''A''] (Some ''c1'')] \<and>
   fetchData_call sample_state None = [FetchApiData [''A'', ''B''] None] \<and>
   fetchData_resume (getParsedDeparture sample_externals) sample_state None (Resolves []) =
     (sample_state, [])"
  using refresh_always_calls_gateway [of sample_state "getParsedDeparture sample_externals"]
  by (simp add: sample_state_def Map_has_def getAllSubscribedStopIDs_def)

text \<open>
  The claim as written fails: a second client subscribing to a stop that is already
  cached has nothing to fetch, and \<^verbatim>\<open>fetchApiData\<close> is called with the empty list.
\<close>

theorem gateway_called_with_empty_list:
  "run sample_externals initial_system
     [Request (Some ''A'') ''c1'' True, Open ''c1'' 7,
      Settle 0 (Resolves [sample_departure ''A'' ''Haje'']),
      Request (Some ''A'') ''c2'' True, Open ''c2'' 8] =
   Some \<lparr>globals =
           \<lparr>intervalId = Some 7,
            subscribedStopIDsByClientID = [(''c1'', [''A'']), (''c2'', [''A''])],
            wsByClientID = [(''c1'', ServerWebSocket ''c1''), (''c2'', ServerWebSocket ''c2'')],
            departuresByStopID = [(''A'', [(''A'', ''Haje'')])]\<rparr>,
         issued = [''c1'', ''c2''], upgraded = [], opened = [''c1'', ''c2''],
         awaiting = [(Some ''c2'', [])], timers = [7],
         effects =
           [FetchApiData [''A''] (Some ''c1''), SetInterval 7,
            Send (ServerWebSocket ''c1'') [(''A'', JArray [(''A'', ''Haje'')])],
            FetchApiData [] (Some ''c2'')]\<rparr>"
  by (simp add: handler_defs system_defs sample_defs)

subsection \<open>C3: rejection of the upstream call\<close>

text \<open>
  C3, as the code has it. When the promise of \<^verbatim>\<open>fetchApiData\<close> rejects, \<^verbatim>\<open>fetchData\<close> has
  no handler for it: the promise it returned rejects with the same error, which nothing
  catches or logs. The four variables stay as they were, nothing is sent, and the timer
  that exists is not cleared.
\<close>

theorem gateway_rejection_escapes:
  "fetchData_resume g s cid (Rejects e) = (s, [Reject (GatewayError e)]) \<and>
   globals (handled sys (fetchData_resume g (globals sys) cid (Rejects e))) = globals sys \<and>
   timers (handled sys (fetchData_resume g (globals sys) cid (Rejects e))) = timers sys \<and>
   effects (handled sys (fetchData_resume g (globals sys) cid (Rejects e))) =
     effects sys @ [Reject (GatewayError e)]"
  by (simp add: fetchData_resume_def handled_def)

text \<open>
  The claim as written fails: the rejection of the upstream call of a client's first
  refresh leaves \<^verbatim>\<open>fetchData\<close> as a rejected promise.
\<close>

theorem gateway_rejection_is_not_caught:
  "run sample_externals initial_system
     [Request (Some ''A'') ''c1'' True, Open ''c1'' 7, Settle 0 (Rejects ''fetch failed'')] =
   Some \<lparr>globals =
           \<lparr>intervalId = Some 7,
            subscribedStopIDsByClientID = [(''c1'', [''A''])],
            wsByClientID = [(''c1'', ServerWebSocket ''c1'')],
            departuresByStopID = []\<rparr>,
         issued = [''c1''], upgraded = [], opened = [''c1''], awaiting = [], timers = [7],
         effects =
           [FetchApiData [''A''] (Some ''c1''), SetInterval 7,
            Reject (GatewayError ''fetch failed'')]\<rparr>"
  by (simp add: handler_defs system_defs sample_defs)

subsection \<open>C4: a connection closed while its refresh is pending\<close>

text \<open>
  C4 does not hold of the code. A client connects, its targeted refresh is suspended at
  the upstream call, and the client disconnects: \<^verbatim>\<open>close\<close> removes its socket and its
  stop list. When the upstream call resolves, \<^verbatim>\<open>fetchData\<close> writes the cache and then reads
  \<^verbatim>\<open>send\<close> off \<^verbatim>\<open>wsByClientID.get(clientID)\<close>, which is \<^verbatim>\<open>undefined\<close>: it throws a
  \<^verbatim>\<open>TypeError\<close> instead of skipping the send.
\<close>

theorem send_after_close_throws:
  "run sample_externals initial_system
     [Request (Some ''A'') ''c1'' True, Open ''c1'' 7, Closed ''c1'',
      Settle 0 (Resolves [sample_departure ''A'' ''Haje''])] =
   Some \<lparr>globals =
           \<lparr>intervalId = None,
            subscribedStopIDsByClientID = [],
            wsByClientID = [],
            departuresByStopID = [(''A'', [(''A'', ''Haje'')])]\<rparr>,
         issued = [''c1''], upgraded = [], opened = [], awaiting = [], timers = [],
         effects =
           [FetchApiData [''A''] (Some ''c1''), SetInterval 7, ClearInterval 7,
            Reject (TypeError ''wsByClientID.get(clientID).send'')]\<rparr>"
  by (simp add: handler_defs system_defs sample_defs)

subsection \<open>C5: stop lists of connections that are not open\<close>

text \<open>
  C5 does not hold of the code. A request with a valid header whose upgrade fails is
  answered with an error, but the stop list stored for it before the upgrade stays in
  \<^verbatim>\<open>subscribedStopIDsByClientID\<close>: no connection exists, so no \<^verbatim>\<open>close\<close> will remove it.
\<close>

theorem failed_upgrade_leaves_entry:
  "run sample_externals initial_system [Request (Some ''A'') ''c0'' False] =
   Some \<lparr>globals =
           \<lparr>intervalId = None,
            subscribedStopIDsByClientID = [(''c0'', [''A''])],
            wsByClientID = [],
            departuresByStopID = []\<rparr>,
         issued = [''c0''], upgraded = [], opened = [], awaiting = [], timers = [],
         effects = []\<rparr>"
  by (simp add: handler_defs system_defs sample_defs)

subsection \<open>C6: life of the timer\<close>

text \<open>
  C6 does not hold of the code. After a request whose upgrade failed, the stop list left
  behind keeps \<^verbatim>\<open>subscribedStopIDsByClientID.size\<close> above zero: when the only connection
  closes, the timer is not cleared and goes on although no connection is left.
\<close>

theorem timer_survives_last_close:
  "run sample_externals initial_system
     [Request (Some ''A'') ''c0'' False, Request (Some ''A'') ''c1'' True, Open ''c1'' 7,
      Closed ''c1''] =
   Some \<lparr>globals =
           \<lparr>intervalId = Some 7,
            subscribedStopIDsByClientID = [(''c0'', [''A''])],
            wsByClientID = [],
            departuresByStopID = []\<rparr>,
         issued = [''c0'', ''c1''], upgraded = [], opened = [],
         awaiting = [(Some ''c1'', [''A''])], timers = [7],
         effects = [FetchApiData [''A''] (Some ''c1''), SetInterval 7]\<rparr>"
  by (simp add: handler_defs system_defs sample_defs)

subsection \<open>C7: stops without departures in a response\<close>

text \<open>
  C7. When a response is processed, the cache entry of a stop for which the response has
  no departure is what it was before (absent stays absent). An entry is written only
  for a stop with departures in the response, and then it becomes the normalised
  departures of that stop, a non-empty list; when a stop identifier of the response
  makes \<^verbatim>\<open>group\<close> throw, nothing at all is written. So no entry is emptied and no entry
  is removed.
\<close>

theorem cache_entry_kept_without_departures:
  "(stop \<notin> stop_id ` set ds \<longrightarrow>
      Map_get (departuresByStopID (fst (fetchData_resume g s cid (Resolves ds)))) stop =
      Map_get (departuresByStopID s) stop) \<and>
   (Map_get (departuresByStopID (fst (fetchData_resume g s cid (Resolves ds)))) stop \<noteq>
      Map_get (departuresByStopID s) stop \<longrightarrow>
      stop \<in> stop_id ` set ds \<and>
      Map_get (departuresByStopID (fst (fetchData_resume g s cid (Resolves ds)))) stop =
      Some (map g (filter (\<lambda>d. stop_id d = stop) ds))) \<and>
   (stop \<in> stop_id ` set ds \<and> \<not> names_prototype_property ds \<longrightarrow>
      Map_get (departuresByStopID (fst (fetchData_resume g s cid (Resolves ds)))) stop =
      Some (map g (filter (\<lambda>d. stop_id d = stop) ds))) \<and>
   (names_prototype_property ds \<longrightarrow>
      fst (fetchData_resume g s cid (Resolves ds)) = s) \<and>
   (Map_get (departuresByStopID (fst (fetchData_resume g s cid (Resolves ds)))) stop = Some [] \<longrightarrow>
      Map_get (departuresByStopID s) stop = Some []) \<and>
   (Map_has (departuresByStopID s) stop \<longrightarrow>
      Map_has (departuresByStopID (fst (fetchData_resume g s cid (Resolves ds)))) stop)"
proof -
  let ?new = "Map_get (departuresByStopID (fst (fetchData_resume g s cid (Resolves ds)))) stop"
  let ?old = "Map_get (departuresByStopID s) stop"
  have new: "?new =
      (if stop \<in> stop_id ` set ds \<and> \<not> names_prototype_property ds
       then Some (map g (filter (\<lambda>d. stop_id d = stop) ds)) else ?old)"
    by (simp only: fst_fetchData_resume Map_get_update_departures)
  have nonempty: "map g (filter (\<lambda>d. stop_id d = stop) ds) \<noteq> []"
    if "stop \<in> stop_id ` set ds"
    using that by (auto simp: filter_empty_conv)
  have thrown: "fst (fetchData_resume g s cid (Resolves ds)) = s"
    if "names_prototype_property ds"
    using that by (simp only: fst_fetchData_resume update_departures_throws)
  have c1: "stop \<notin> stop_id ` set ds \<longrightarrow> ?new = ?old"
    by (simp add: new)
  have c2: "?new \<noteq> ?old \<longrightarrow>
      stop \<in> stop_id ` set ds \<and> ?new = Some (map g (filter (\<lambda>d. stop_id d = stop) ds))"
    by (simp add: new)
  have c3: "stop \<in> stop_id ` set ds \<and> \<not> names_prototype_property ds \<longrightarrow>
      ?new = Some (map g (filter (\<lambda>d. stop_id d = stop) ds))"
    by (simp add: new)
  have c4: "names_prototype_property ds \<longrightarrow> fst (fetchData_resume g s cid (Resolves ds)) = s"
    using thrown by blast
  have c5: "?new = Some [] \<longrightarrow> ?old = Some []"
    using nonempty by (simp add: new split: if_splits)
  have c6: "Map_has (departuresByStopID s) stop \<longrightarrow>
      Map_has (departuresByStopID (fst (fetchData_resume g s cid (Resolves ds)))) stop"
    unfolding Map_has_def by (simp add: new)
  show ?thesis
    using c1 c2 c3 c4 c5 c6 by blast
qed

theorem cache_entry_kept_without_departures_witness:
  "''B'' \<notin> stop_id ` set [sample_departure ''A'' ''Haje''] \<and>
   Map_get (departuresByStopID
     (fst (fetchData_resume (getParsedDeparture sample_externals) sample_state None
             (Resolves [sample_departure ''A'' ''Haje''])))) ''B'' = Some [(''B'', ''Zlicin'')] \<and>
   ''A'' \<in> stop_id ` set [sample_departure ''A'' ''Haje''] \<and>
   \<not> names_prototype_property [sample_departure ''A'' ''Haje''] \<and>
   Map_get (departuresByStopID
     (fst (fetchData_resume (getParsedDeparture sample_externals) sample_state None
             (Resolves [sample_departure ''A'' ''Haje''])))) ''A'' = Some [(''A'', ''Haje'')] \<and>
   names_prototype_property [sample_departure ''A'' ''Haje'', sample_departure ''constructor'' ''X''] \<and>
   fst (fetchData_resume (getParsedDeparture sample_externals) sample_state None
          (Resolves [sample_departure ''A'' ''Haje'', sample_departure ''constructor'' ''X''])) =
     sample_state \<and>
   Map_has (departuresByStopID sample_state) ''B'' \<and>
   Map_has (departuresByStopID
     (fst (fetchData_resume (getParsedDeparture sample_externals) sample_state None
             (Resolves [sample_departure ''A'' ''Haje''])))) ''B''"
proof -
  let ?g = "getParsedDeparture sample_externals"
  let ?ds = "[sample_departure ''A'' ''Haje'']"
  let ?bad = "[sample_departure ''A'' ''Haje'', sample_departure ''constructor'' ''X'']"
  have notB: "''B'' \<notin> stop_id ` set ?ds"
    by (simp add: sample_departure_def)
  have inA: "''A'' \<in> stop_id ` set ?ds"
    by (simp add: sample_departure_def)
  have plain: "\<not> names_prototype_property ?ds"
    by (simp add: names_prototype_property_def Object_prototype_properties_def
        sample_departure_def)
  have proto: "names_prototype_property ?bad"
    by (simp add: names_prototype_property_def Object_prototype_properties_def
        sample_departure_def)
  have oldB: "Map_get (departuresByStopID sample_state) ''B'' = Some [(''B'', ''Zlicin'')]"
    by (simp add: sample_state_def)
  have hasB: "Map_has (departuresByStopID sample_state) ''B''"
    by (simp add: sample_state_def Map_has_def)
  have mapped: "map ?g (filter (\<lambda>d. stop_id d = ''A'') ?ds) = [(''A'', ''Haje'')]"
    by (simp add: sample_externals_def sample_departure_def)
  note atB = cache_entry_kept_without_departures [of "''B''" ?ds ?g sample_state None]
  note atA = cache_entry_kept_without_departures [of "''A''" ?ds ?g sample_state None]
  note atBad = cache_entry_kept_without_departures [of "''A''" ?bad ?g sample_state None]
  have keptB: "Map_get (departuresByStopID (fst (fetchData_resume ?g sample_state None
      (Resolves ?ds)))) ''B'' = Some [(''B'', ''Zlicin'')]"
    using atB [THEN conjunct1] notB oldB by (simp only: simp_thms)
  have newA: "Map_get (departuresByStopID (fst (fetchData_resume ?g sample_state None
      (Resolves ?ds)))) ''A'' = Some [(''A'', ''Haje'')]"
    using atA [THEN conjunct2, THEN conjunct2, THEN conjunct1] inA plain mapped
    by (simp only: simp_thms)
  have thrown: "fst (fetchData_resume ?g sample_state None (Resolves ?bad)) = sample_state"
    using atBad [THEN conjunct2, THEN conjunct2, THEN conjunct2, THEN conjunct1] proto
    by (simp only: simp_thms)
  have stillB: "Map_has (departuresByStopID (fst (fetchData_resume ?g sample_state None
      (Resolves ?ds)))) ''B''"
    using atB [THEN conjunct2, THEN conjunct2, THEN conjunct2, THEN conjunct2, THEN conjunct2]
      hasB by (simp only: simp_thms)
  from notB keptB inA plain newA proto thrown hasB stillB show ?thesis
    by (simp only: simp_thms)
qed

subsection \<open>C8: the same refresh twice\<close>

text \<open>
  C8, as the code has it. For a client with a stop list, two targeted refreshes in
  succession send the same text, provided that for each of the client's stops the second
  response has either no departures or the departures the first response had, and that
  no stop identifier in either response names a property of \<^verbatim>\<open>Object.prototype\<close> (on
  such a response \<^verbatim>\<open>group\<close> throws and the refresh sends nothing). The cache write
  replaces an entry and never appends to it.
\<close>

theorem repeated_refresh_same_payload:
  assumes "c \<noteq> []"
    and "Map_get (subscribedStopIDsByClientID s) c = Some ids"
    and "\<forall>stop\<in>set ids. filter (\<lambda>d. stop_id d = stop) ds2 = [] \<or>
           filter (\<lambda>d. stop_id d = stop) ds2 = filter (\<lambda>d. stop_id d = stop) ds1"
    and "\<not> names_prototype_property ds1"
    and "\<not> names_prototype_property ds2"
  shows "snd (fetchData_resume g (fst (fetchData_resume g s (Some c) (Resolves ds1))) (Some c)
                (Resolves ds2)) =
         snd (fetchData_resume g s (Some c) (Resolves ds1))"
proof -
  let ?s1 = "update_departures g ds1 s"
  let ?s2 = "update_departures g ds2 ?s1"
  have same: "Map_get (departuresByStopID ?s2) k = Map_get (departuresByStopID ?s1) k"
    if "k \<in> set ids" for k
  proof (cases "filter (\<lambda>d. stop_id d = k) ds2 = []")
    case True
    then have "k \<notin> stop_id ` set ds2" by (auto simp: filter_empty_conv)
    then show ?thesis by (simp add: Map_get_update_departures)
  next
    case False
    then have eq: "filter (\<lambda>d. stop_id d = k) ds2 = filter (\<lambda>d. stop_id d = k) ds1"
      using assms(3) that by blast
    have "k \<in> stop_id ` set ds2" using False by (auto simp: filter_empty_conv)
    moreover have "k \<in> stop_id ` set ds1" using False eq by (auto simp: filter_empty_conv)
    ultimately show ?thesis by (simp add: Map_get_update_departures eq assms(4) assms(5))
  qed
  have "getStringifiedDataForClientID ?s2 c = getStringifiedDataForClientID ?s1 c"
  proof (rule getStringifiedDataForClientID_cong)
    show "subscribedStopIDsByClientID ?s2 = subscribedStopIDsByClientID ?s1" by simp
  next
    fix ids' k
    assume "Map_get (subscribedStopIDsByClientID ?s1) c = Some ids'" and "k \<in> set ids'"
    then show "Map_get (departuresByStopID ?s2) k = Map_get (departuresByStopID ?s1) k"
      using assms(2) same by simp
  qed
  then have "send_to_client ?s2 c = send_to_client ?s1 c"
    by (simp add: send_to_client_def split: option.splits)
  then show ?thesis
    using assms(1) assms(4) assms(5) by (simp add: fetchData_resume_def store_departures_eq)
qed

theorem repeated_refresh_same_payload_witness:
  "filter (\<lambda>d. stop_id d = ''A'') [sample_departure ''A'' ''Haje''] =
     filter (\<lambda>d. stop_id d = ''A'') [sample_departure ''A'' ''Haje''] \<and>
   filter (\<lambda>d. stop_id d = ''B'') [sample_departure ''A'' ''Haje''] = [] \<and>
   \<not> names_prototype_property [sample_departure ''A'' ''Haje''] \<and>
   snd (fetchData_resume (getParsedDeparture sample_externals)
          (fst (fetchData_resume (getParsedDeparture sample_externals) sample_state (Some ''c1'')
                  (Resolves [sample_departure ''A'' ''Haje''])))
          (Some ''c1'') (Resolves [sample_departure ''A'' ''Haje''])) =
   snd (fetchData_resume (getParsedDeparture sample_externals) sample_state (Some ''c1'')
          (Resolves [sample_departure ''A'' ''Haje'']))"
proof -
  have c: "''c1'' \<noteq> []" by simp
  have ids: "Map_get (subscribedStopIDsByClientID sample_state) ''c1'' = Some [''A'', ''B'']"
    by (simp add: sample_state_def)
  have same: "\<forall>stop\<in>set [''A'', ''B''].
      filter (\<lambda>d. stop_id d = stop) [sample_departure ''A'' ''Haje''] = [] \<or>
      filter (\<lambda>d. stop_id d = stop) [sample_departure ''A'' ''Haje''] =
      filter (\<lambda>d. stop_id d = stop) [sample_departure ''A'' ''Haje'']"
    by simp
  have plain: "\<not> names_prototype_property [sample_departure ''A'' ''Haje'']"
    by (simp add: names_prototype_property_def Object_prototype_properties_def
        sample_departure_def)
  show ?thesis
    using plain
      repeated_refresh_same_payload [OF c ids same plain plain,
        of "getParsedDeparture sample_externals"]
    by (simp add: sample_departure_def)
qed

text \<open>
  The claim as written fails: nothing happens between the two refreshes, but the second
  asks again for the stop that is still missing, and this time the response has a
  departure for it.
\<close>

theorem second_refresh_can_differ:
  "snd (fetchData_resume (getParsedDeparture sample_externals) sample_state (Some ''c1'')
          (Resolves [])) =
     [Send (ServerWebSocket ''c1'') [(''B'', JArray [(''B'', ''Zlicin'')])]] \<and>
   snd (fetchData_resume (getParsedDeparture sample_externals)
          (fst (fetchData_resume (getParsedDeparture sample_externals) sample_state (Some ''c1'')
                  (Resolves [])))
          (Some ''c1'') (Resolves [sample_departure ''A'' ''Haje''])) =
     [Send (ServerWebSocket ''c1'')
        [(''A'', JArray [(''A'', ''Haje'')]), (''B'', JArray [(''B'', ''Zlicin'')])]] \<and>
   snd (fetchData_resume (getParsedDeparture sample_externals)
          (fst (fetchData_resume (getParsedDeparture sample_externals) sample_state (Some ''c1'')
                  (Resolves [])))
          (Some ''c1'') (Resolves [sample_departure ''A'' ''Haje''])) \<noteq>
   snd (fetchData_resume (getParsedDeparture sample_externals) sample_state (Some ''c1'')
          (Resolves []))"
  by (simp add: handler_defs sample_defs)

text \<open>
  The second proviso is needed as well: a second response that repeats the first and adds
  a departure whose stop identifier is \<open>constructor\<close> satisfies the first proviso, but
  \<^verbatim>\<open>group\<close> throws on it and the second refresh sends nothing.
\<close>

lemma second_refresh_can_throw:
  "snd (fetchData_resume (getParsedDeparture sample_externals) sample_state (Some ''c1'')
          (Resolves [sample_departure ''A'' ''Haje''])) =
     [Send (ServerWebSocket ''c1'')
        [(''A'', JArray [(''A'', ''Haje'')]), (''B'', JArray [(''B'', ''Zlicin'')])]] \<and>
   snd (fetchData_resume (getParsedDeparture sample_externals)
          (fst (fetchData_resume (getParsedDeparture sample_externals) sample_state (Some ''c1'')
                  (Resolves [sample_departure ''A'' ''Haje''])))
          (Some ''c1'')
          (Resolves [sample_departure ''A'' ''Haje'', sample_departure ''constructor'' ''X''])) =
     [Reject (TypeError ''group: acc[groupId] is not an array'')]"
  by (simp add: handler_defs sample_defs)

subsection \<open>C9: a subscribe message\<close>

text \<open>
  C9. A text frame that parses and passes the schema makes the handler store the new
  list under the connection's identifier, in place of whatever was there; the lists of
  the other clients, the sockets, the cache and the timer are untouched, and the handler
  has no effect besides: no upstream call, no frame sent, no socket closed.
\<close>

theorem message_replaces_subscription:
  assumes "parse m = Inr j" and "schema j = Inr ids"
  shows "message_handler parse schema s w (Text m) =
           (s\<lparr>subscribedStopIDsByClientID :=
                Map_set (data_clientID w) ids (subscribedStopIDsByClientID s)\<rparr>, []) \<and>
         Map_get (subscribedStopIDsByClientID (fst (message_handler parse schema s w (Text m))))
           (data_clientID w) = Some ids \<and>
         (\<forall>c. c \<noteq> data_clientID w \<longrightarrow>
            Map_get (subscribedStopIDsByClientID (fst (message_handler parse schema s w (Text m)))) c =
            Map_get (subscribedStopIDsByClientID s) c) \<and>
         departuresByStopID (fst (message_handler parse schema s w (Text m))) = departuresByStopID s \<and>
         wsByClientID (fst (message_handler parse schema s w (Text m))) = wsByClientID s \<and>
         intervalId (fst (message_handler parse schema s w (Text m))) = intervalId s"
  using assms by (simp add: message_handler_def map_of_Map_set)

theorem message_replaces_subscription_witness:
  "JSON_parse sample_externals ''C'' = Inr [''C''] \<and>
   SubscribeSchema sample_externals [''C''] = Inr [''C''] \<and>
   message_handler (JSON_parse sample_externals) (SubscribeSchema sample_externals) sample_state
     (ServerWebSocket ''c1'') (Text ''C'') =
     (sample_state\<lparr>subscribedStopIDsByClientID := [(''c1'', [''C''])]\<rparr>, [])"
proof -
  have parsed: "JSON_parse sample_externals ''C'' = Inr [''C'']"
    by (simp add: sample_externals_def)
  have valid: "SubscribeSchema sample_externals [''C''] = Inr [''C'']"
    by (simp add: sample_externals_def)
  show ?thesis
    using parsed valid
      message_replaces_subscription [of "JSON_parse sample_externals" "''C''" "[''C'']"
        "SubscribeSchema sample_externals" "[''C'']" sample_state "ServerWebSocket ''c1''"]
    by (simp add: sample_state_def)
qed

subsection \<open>C10: every stored socket has a stop list\<close>

text \<open>
  C10. In every state the server reaches from its start, each client identifier with a
  socket in \<^verbatim>\<open>wsByClientID\<close> has an entry in \<^verbatim>\<open>subscribedStopIDsByClientID\<close>, so composing
  the text for such a client, after any cache write, finds its stop list and does not
  throw.
\<close>

theorem connected_client_has_entry:
  assumes "run E initial_system es = Some sys"
  shows "sockets_have_entries (globals sys) \<and>
         (\<forall>c ds. c \<in> Map_keys (wsByClientID (globals sys)) \<longrightarrow>
            (\<exists>p. getStringifiedDataForClientID
                    (update_departures (getParsedDeparture E) ds (globals sys)) c = Inr p))"
proof -
  have inv: "sockets_have_entries (globals sys)"
    using run_inv [OF lifecycle_inv_initial assms] by (simp add: lifecycle_inv_def)
  have "\<exists>p. getStringifiedDataForClientID
                    (update_departures (getParsedDeparture E) ds (globals sys)) c = Inr p"
    if "c \<in> Map_keys (wsByClientID (globals sys))" for c ds
  proof -
    have "c \<in> Map_keys (subscribedStopIDsByClientID (globals sys))"
      using inv that by (auto simp: sockets_have_entries_def)
    then obtain ids where "Map_get (subscribedStopIDsByClientID (globals sys)) c = Some ids"
      by (auto simp: Map_keys_dom)
    then show ?thesis by (simp add: getStringifiedDataForClientID_def)
  qed
  then show ?thesis using inv by blast
qed

theorem connected_client_has_entry_witness:
  "run sample_externals initial_system [Request (Some ''A'') ''c1'' True, Open ''c1'' 7] =
     Some \<lparr>globals =
             \<lparr>intervalId = Some 7,
              subscribedStopIDsByClientID = [(''c1'', [''A''])],
              wsByClientID = [(''c1'', ServerWebSocket ''c1'')],
              departuresByStopID = []\<rparr>,
           issued = [''c1''], upgraded = [], opened = [''c1''],
           awaiting = [(Some ''c1'', [''A''])], timers = [7],
           effects = [FetchApiData [''A''] (Some ''c1''), SetInterval 7]\<rparr> \<and>
   sockets_have_entries
     \<lparr>intervalId = Some 7,
      subscribedStopIDsByClientID = [(''c1'', [''A''])],
      wsByClientID = [(''c1'', ServerWebSocket ''c1'')],
      departuresByStopID = ([] :: (stopID \<times> (stopID \<times> string) list) list)\<rparr>"
proof -
  have reached:
    "run sample_externals initial_system [Request (Some ''A'') ''c1'' True, Open ''c1'' 7] =
     Some \<lparr>globals =
             \<lparr>intervalId = Some 7,
              subscribedStopIDsByClientID = [(''c1'', [''A''])],
              wsByClientID = [(''c1'', ServerWebSocket ''c1'')],
              departuresByStopID = []\<rparr>,
           issued = [''c1''], upgraded = [], opened = [''c1''],
           awaiting = [(Some ''c1'', [''A''])], timers = [7],
           effects = [FetchApiData [''A''] (Some ''c1''), SetInterval 7]\<rparr>"
    by (simp add: handler_defs system_defs sample_defs)
  show ?thesis
    using reached connected_client_has_entry [OF reached] by simp
qed

end
